theory Spec2Isabelle
  imports Complex_Main "HOL-Library.Stream"
begin

section \<open>The one-dimensional grid world of \<open>week1/main.py\<close>\<close>

subsection \<open>Values, errors and the random source\<close>

text \<open>
  The values a policy can hand to \<open>step\<close>: a Python integer, or \<open>None\<close> (what
  \<open>monotonous_policy\<close> returns when it falls off its last \<open>if\<close>).
\<close>

datatype pyval = IntV int | NoneV

text \<open>
  The exceptions the program can raise: the \<open>assert\<close> of \<open>step\<close> (with its message),
  arithmetic on a field that is still \<open>None\<close>, \<open>randrange\<close> on an empty range, and a
  read of a module-level variable that was never assigned.
\<close>

datatype py_error = AssertionError string | TypeError | ValueError | NameError

text \<open>
  \<open>random.Random\<close> belongs to Python's library, not to the program. A generator is taken as
  the stream of raw numbers it is going to produce, one for each call of \<open>randrange\<close>;
  \<open>randrange n\<close> reduces the next one into \<open>range(n)\<close> and raises \<open>ValueError\<close> on an
  empty range, consuming nothing. Every sequence of results a generator can give is the
  reduction of some stream, so a statement about all streams is a statement about all
  generators.
\<close>

type_synonym rng_state = "nat stream"

definition randrange :: "rng_state \<Rightarrow> int \<Rightarrow> py_error + (int \<times> rng_state)" where
  "randrange r n =
     (if n \<le> 0 then Inl ValueError else Inr (int (shd r) mod n, stl r))"

subsection \<open>The environment\<close>

text \<open>
  The fields of \<open>GridWorld1D\<close>. \<open>state\<close> and \<open>goal_state\<close> are \<open>None\<close> between
  construction and the first \<open>reset\<close>.
\<close>

record GridWorld1D =
  N :: int
  step_limit :: int
  rng :: rng_state
  state :: "int option"
  goal_state :: "int option"
  steps_taken :: int

text \<open>
  \<open>__init__(N, step_limit, seed)\<close>; the generator \<open>random.Random(seed)\<close> is passed as the
  stream it produces. Rewards are Python floats; they are modelled as the real numbers their
  literals denote.
\<close>

definition GridWorld1D_init :: "int \<Rightarrow> int \<Rightarrow> rng_state \<Rightarrow> py_error + GridWorld1D" where
  "GridWorld1D_init n sl seeded =
     Inr \<lparr>N = n, step_limit = sl, rng = seeded,
          state = None, goal_state = None, steps_taken = 0\<rparr>"

text \<open>\<open>action in (0, 1)\<close>\<close>

definition valid_action :: "pyval \<Rightarrow> bool" where
  "valid_action a = (a = IntV 0 \<or> a = IntV 1)"

text \<open>The move of \<open>step\<close>: left with a floor at 0, right with a ceiling at \<open>N - 1\<close>.\<close>

definition move :: "GridWorld1D \<Rightarrow> pyval \<Rightarrow> int \<Rightarrow> int" where
  "move e a s = (if a = IntV 0 then max (s - 1) 0 else min (s + 1) (N e - 1))"

text \<open>The shaped penalty of a step that does not end on the goal.\<close>

definition shaped :: "int \<Rightarrow> int \<Rightarrow> int \<Rightarrow> real" where
  "shaped old_state new_state g =
     (let old_dist = \<bar>old_state - g\<bar>; new_dist = \<bar>new_state - g\<bar>
      in if new_dist < old_dist then - 0.1 else - 0.2)"

text \<open>
  \<open>step(action)\<close> returns \<open>(next_state, reward, done)\<close> or raises; the second component is
  the environment as the call leaves it, also when it raises. With \<open>state\<close> still \<open>None\<close>
  the move itself raises (\<open>None - 1\<close>) before anything is assigned; with only
  \<open>goal_state\<close> \<open>None\<close> the comparison with the goal is false and the distance raises, after
  the position and the counter have been updated.
\<close>

definition step ::
  "GridWorld1D \<Rightarrow> pyval \<Rightarrow> (py_error + (int \<times> real \<times> bool)) \<times> GridWorld1D" where
  "step e a =
     (if \<not> valid_action a
      then (Inl (AssertionError ''Invalid action, must be 0 (left) or 1 (right).''), e)
      else case state e of
        None \<Rightarrow> (Inl TypeError, e)
      | Some old_state \<Rightarrow>
          (let s' = move e a old_state;
               e' = e\<lparr>state := Some s', steps_taken := steps_taken e + 1\<rparr>
           in (case goal_state e' of
                 None \<Rightarrow> (Inl TypeError, e')
               | Some g \<Rightarrow>
                   if s' = g then (Inr (s', 10, True), e')
                   else
                     (let reward = shaped old_state s' g
                      in if steps_taken e' \<ge> step_limit e'
                         then (Inr (s', reward + (- 100), True), e')
                         else (Inr (s', reward, False), e')))))"

text \<open>A run of \<open>step\<close> calls on one environment, whatever each call returns.\<close>

fun steps :: "GridWorld1D \<Rightarrow> pyval list \<Rightarrow> GridWorld1D" where
  "steps e [] = e"
| "steps e (a # as) = steps (snd (step e a)) as"

text \<open>Both positions are set and lie in \<open>range(N)\<close>.\<close>

definition in_grid :: "GridWorld1D \<Rightarrow> bool" where
  "in_grid e =
     (case (state e, goal_state e) of
        (Some p, Some g) \<Rightarrow> 0 \<le> p \<and> p < N e \<and> 0 \<le> g \<and> g < N e
      | _ \<Rightarrow> False)"

text \<open>
  The \<open>while\<close> loop of \<open>reset\<close>: it draws a new start as long as the start equals the goal.
  Nothing bounds the number of draws, so the loop is a partial function: \<open>None\<close> is a run
  that never leaves the loop.
\<close>

partial_function (option) reset_loop ::
  "GridWorld1D \<Rightarrow> int \<Rightarrow> ((py_error + int) \<times> GridWorld1D) option" where
  "reset_loop e start_state =
     (if Some start_state = goal_state e
      then (case randrange (rng e) (N e) of
              Inl err \<Rightarrow> Some (Inl err, e)
            | Inr (s, r) \<Rightarrow> reset_loop (e\<lparr>rng := r\<rparr>) s)
      else Some (Inr start_state, e))"

text \<open>
  \<open>reset()\<close>: the goal is drawn and stored first, then the start; the position and the
  counter are assigned after the loop. The result carries the environment as the call
  leaves it.
\<close>

definition reset :: "GridWorld1D \<Rightarrow> ((py_error + int) \<times> GridWorld1D) option" where
  "reset e =
     (case randrange (rng e) (N e) of
        Inl err \<Rightarrow> Some (Inl err, e)
      | Inr (g, r1) \<Rightarrow>
          (let e1 = e\<lparr>goal_state := Some g, rng := r1\<rparr>
           in (case randrange (rng e1) (N e1) of
                 Inl err \<Rightarrow> Some (Inl err, e1)
               | Inr (s, r2) \<Rightarrow>
                   (case reset_loop (e1\<lparr>rng := r2\<rparr>) s of
                      None \<Rightarrow> None
                    | Some (Inl err, e2) \<Rightarrow> Some (Inl err, e2)
                    | Some (Inr start_state, e2) \<Rightarrow>
                        Some (Inr start_state,
                              e2\<lparr>state := Some start_state, steps_taken := 0\<rparr>)))))"

subsection \<open>Policies\<close>

text \<open>
  The module-level variables the policies and the runner share, \<open>None\<close> while unassigned,
  and the generator of the \<open>random\<close> module itself, which \<open>run_episode\<close> draws from.
\<close>

record globals =
  monotonous_direction :: "int option"
  wildcard_origin :: "int option"
  wildcard_extent :: "int option"
  wildcard_direction :: "int option"
  module_random :: rng_state

text \<open>
  A policy is called as \<open>policy_fn(state, env)\<close>; it may draw from \<open>env.rng\<close> and assign
  module-level variables, so it returns both with its action.
\<close>

type_synonym policy =
  "int \<Rightarrow> GridWorld1D \<Rightarrow> globals \<Rightarrow> (py_error + pyval) \<times> GridWorld1D \<times> globals"

definition random_policy :: policy where
  "random_policy st env gl =
     (case randrange (rng env) 2 of
        Inl err \<Rightarrow> (Inl err, env, gl)
      | Inr (a, r) \<Rightarrow> (Inr (IntV a), env\<lparr>rng := r\<rparr>, gl))"

definition monotonous_policy :: policy where
  "monotonous_policy st env gl =
     (case monotonous_direction gl of
        None \<Rightarrow> (Inl NameError, env, gl)
      | Some dir \<Rightarrow>
          if dir = 0 then
            (if st = 0 then (Inr (IntV 1), env, gl\<lparr>monotonous_direction := Some 1\<rparr>)
             else (Inr (IntV 0), env, gl))
          else if dir = 1 then
            (if st = N env - 1 then (Inr (IntV 0), env, gl\<lparr>monotonous_direction := Some 0\<rparr>)
             else (Inr (IntV 1), env, gl))
          else (Inr NoneV, env, gl))"

definition wildcard_policy :: policy where
  "wildcard_policy st env gl =
     (if steps_taken env = 0
      then (Inr (IntV 1), env,
            gl\<lparr>wildcard_origin := Some st, wildcard_extent := Some 1,
               wildcard_direction := Some 1\<rparr>)
      else case (wildcard_origin gl, wildcard_direction gl, wildcard_extent gl) of
        (Some orig, Some dir, Some ext) \<Rightarrow>
          (let target = orig + dir * ext;
               target = max 0 (min (N env - 1) target);
               gl' = (if st = target
                      then (if dir = 1 then gl\<lparr>wildcard_direction := Some (- 1)\<rparr>
                            else gl\<lparr>wildcard_direction := Some 1,
                                    wildcard_extent := Some (ext + 1)\<rparr>)
                      else gl)
           in if st < target then (Inr (IntV 1), env, gl')
              else if st > target then (Inr (IntV 0), env, gl')
              else (Inr (IntV (if wildcard_direction gl' = Some 1 then 1 else 0)), env, gl'))
      | _ \<Rightarrow> (Inl NameError, env, gl))"

subsection \<open>The episode runner\<close>

text \<open>
  The \<open>for t in range(max_steps)\<close> loop of \<open>run_episode\<close>, by recursion on the number of
  iterations left; \<open>t\<close> is the loop variable, \<open>total_return\<close> the running sum.
\<close>

primrec run_loop ::
  "policy \<Rightarrow> int \<Rightarrow> nat \<Rightarrow> int \<Rightarrow> int \<Rightarrow> real \<Rightarrow> GridWorld1D \<Rightarrow> globals
     \<Rightarrow> (py_error + (real \<times> int)) \<times> GridWorld1D \<times> globals" where
  "run_loop policy_fn max_steps 0 t st total_return env gl =
     (Inr (total_return, max_steps), env, gl)"
| "run_loop policy_fn max_steps (Suc k) t st total_return env gl =
     (case policy_fn st env gl of
        (Inl err, env1, gl1) \<Rightarrow> (Inl err, env1, gl1)
      | (Inr action, env1, gl1) \<Rightarrow>
          (case step env1 action of
             (Inl err, env2) \<Rightarrow> (Inl err, env2, gl1)
           | (Inr (next_state, reward, done), env2) \<Rightarrow>
               if done then (Inr (total_return + reward, t + 1), env2, gl1)
               else run_loop policy_fn max_steps k (t + 1) next_state
                      (total_return + reward) env2 gl1))"

text \<open>
  \<open>run_episode(env, policy_fn, max_steps)\<close>: after \<open>reset\<close> the initial direction of the
  monotonous policy is drawn with \<open>random.randrange(2)\<close>, from the generator of the
  \<open>random\<close> module, not from \<open>env.rng\<close>.
\<close>

definition run_episode ::
  "GridWorld1D \<Rightarrow> policy \<Rightarrow> int \<Rightarrow> globals
     \<Rightarrow> ((py_error + (real \<times> int)) \<times> GridWorld1D \<times> globals) option" where
  "run_episode env policy_fn max_steps gl =
     (case reset env of
        None \<Rightarrow> None
      | Some (Inl err, env1) \<Rightarrow> Some (Inl err, env1, gl)
      | Some (Inr st, env1) \<Rightarrow>
          (case randrange (module_random gl) 2 of
             Inl err \<Rightarrow> Some (Inl err, env1, gl)
           | Inr (d, r) \<Rightarrow>
               Some (run_loop policy_fn max_steps (nat max_steps) 0 st 0 env1
                       (gl\<lparr>monotonous_direction := Some d, module_random := r\<rparr>))))"

subsection \<open>The wildcard policy as the specification words it\<close>

text \<open>
  The expanding sweep as a function of the grid size, the step counter, the observed
  position and a policy state of three integers. It is written from the description of the
  algorithm and compared with \<open>wildcard_policy\<close> below.
\<close>

datatype action = Left | Right

record sweep =
  origin :: int
  extent :: int
  direction :: int

definition clamp :: "int \<Rightarrow> int \<Rightarrow> int \<Rightarrow> int" where
  "clamp x lo hi = (if x < lo then lo else if hi < x then hi else x)"

definition wildcard_sweep :: "int \<Rightarrow> int \<Rightarrow> int \<Rightarrow> sweep \<Rightarrow> action \<times> sweep" where
  "wildcard_sweep size_of_grid steps_so_far st w =
     (if steps_so_far = 0
      then (Right, \<lparr>origin = st, extent = 1, direction = 1\<rparr>)
      else
        let target = clamp (origin w + direction w * extent w) 0 (size_of_grid - 1);
            w' = (if st = target
                  then (if direction w = 1 then w\<lparr>direction := - 1\<rparr>
                        else w\<lparr>direction := 1, extent := extent w + 1\<rparr>)
                  else w)
        in ((if st < target then Right
             else if st > target then Left
             else if direction w' = 1 then Right else Left), w'))"

text \<open>The policy state held in the module-level variables, once all three are assigned.\<close>

definition sweep_of :: "globals \<Rightarrow> sweep option" where
  "sweep_of gl =
     (case (wildcard_origin gl, wildcard_extent gl, wildcard_direction gl) of
        (Some orig, Some ext, Some dir) \<Rightarrow>
          Some \<lparr>origin = orig, extent = ext, direction = dir\<rparr>
      | _ \<Rightarrow> None)"

definition action_val :: "action \<Rightarrow> pyval" where
  "action_val a = (case a of Left \<Rightarrow> IntV 0 | Right \<Rightarrow> IntV 1)"

subsection \<open>Example inputs\<close>

text \<open>
  An environment in the middle of an episode, given by size, step limit, position, goal and
  step counter; a newly constructed environment whose generator repeats a list of draws;
  the module state in the middle of a wildcard sweep; and the module state right after
  import, before any module-level variable has been assigned.
\<close>

definition mid_episode :: "int \<Rightarrow> int \<Rightarrow> int \<Rightarrow> int \<Rightarrow> int \<Rightarrow> GridWorld1D" where
  "mid_episode n sl p g k =
     \<lparr>N = n, step_limit = sl, rng = sconst 0,
      state = Some p, goal_state = Some g, steps_taken = k\<rparr>"

definition fresh :: "int \<Rightarrow> int \<Rightarrow> nat list \<Rightarrow> GridWorld1D" where
  "fresh n sl draws =
     \<lparr>N = n, step_limit = sl, rng = cycle draws,
      state = None, goal_state = None, steps_taken = 0\<rparr>"

definition sweeping :: "int \<Rightarrow> int \<Rightarrow> int \<Rightarrow> rng_state \<Rightarrow> globals" where
  "sweeping orig ext dir r =
     \<lparr>monotonous_direction = None, wildcard_origin = Some orig, wildcard_extent = Some ext,
      wildcard_direction = Some dir, module_random = r\<rparr>"

definition at_import :: "rng_state \<Rightarrow> globals" where
  "at_import r =
     \<lparr>monotonous_direction = None, wildcard_origin = None, wildcard_extent = None,
      wildcard_direction = None, module_random = r\<rparr>"

subsection \<open>Facts about \<open>step\<close>\<close>

lemma step_invalid: "\<not> valid_action a \<Longrightarrow>
    step e a = (Inl (AssertionError ''Invalid action, must be 0 (left) or 1 (right).''), e)"
  by (simp add: step_def)

lemma step_env:
  assumes "valid_action a" and "state e = Some s"
  shows "snd (step e a) = e\<lparr>state := Some (move e a s), steps_taken := steps_taken e + 1\<rparr>"
  using assms by (simp add: step_def Let_def split: option.splits)

lemma step_result:
  assumes "valid_action a" and "state e = Some s" and "goal_state e = Some g"
  shows "fst (step e a) =
           (if move e a s = g then Inr (g, 10, True)
            else if steps_taken e + 1 \<ge> step_limit e
                 then Inr (move e a s, shaped s (move e a s) g + (- 100), True)
                 else Inr (move e a s, shaped s (move e a s) g, False))"
  using assms by (simp add: step_def Let_def)

lemma shaped_cases: "shaped s p g = (if \<bar>p - g\<bar> < \<bar>s - g\<bar> then - 0.1 else - 0.2)"
  by (simp add: shaped_def Let_def)

lemmas eval_step = step_def valid_action_def move_def shaped_def mid_episode_def Let_def

text \<open>
  C1. Whenever a valid step leaves the agent on the goal, \<open>step\<close> returns that position, the
  reward \<open>+10.0\<close> and \<open>done = True\<close>, whatever the step counter is: the check of the step
  limit is never reached, so no \<open>-100.0\<close> is added even when the counter has reached the
  limit. (The size of the grid plays no part.)
\<close>

theorem step_goal_priority:
  assumes "valid_action a" and "state e = Some s"
    and "state (snd (step e a)) = goal_state (snd (step e a))"
  shows "\<exists>p. state (snd (step e a)) = Some p \<and> fst (step e a) = Inr (p, 10, True)"
proof -
  have env: "snd (step e a) = e\<lparr>state := Some (move e a s), steps_taken := steps_taken e + 1\<rparr>"
    using assms(1,2) by (rule step_env)
  with assms(3) have g: "goal_state e = Some (move e a s)" by simp
  have "fst (step e a) = Inr (move e a s, 10, True)"
    using step_result [OF assms(1,2) g] by simp
  with env show ?thesis by simp
qed

text \<open>
  The step from 7 to the goal 8 that is also the hundredth step of an episode limited to
  100 steps: the reward is \<open>+10.0\<close>, not \<open>-90.0\<close>.
\<close>

theorem step_goal_priority_witness:
  "fst (step (mid_episode 10 100 7 8 99) (IntV 1)) = Inr (8, 10, True)"
proof -
  let ?e = "mid_episode 10 100 7 8 99"
  have h1: "valid_action (IntV 1)" by (simp add: valid_action_def)
  have h2: "state ?e = Some 7" by (simp add: mid_episode_def)
  have h3: "state (snd (step ?e (IntV 1))) = goal_state (snd (step ?e (IntV 1)))"
    by (simp add: eval_step)
  have "state (snd (step ?e (IntV 1))) = Some 8" by (simp add: eval_step)
  with step_goal_priority [OF h1 h2 h3] show ?thesis by simp
qed

text \<open>
  C2. A valid step that ends on a position \<open>p\<close> other than the goal, with the counter
  still below the step limit afterwards, returns the reward \<open>-0.1\<close> when \<open>p\<close> is
  strictly closer to the goal than the old position \<open>s\<close>, and \<open>-0.2\<close> otherwise (further
  away, or as far, which includes a move into a wall); \<open>done\<close> is \<open>False\<close>.
\<close>

theorem step_shaped_reward:
  assumes "valid_action a" and "state e = Some s" and "goal_state e = Some g"
    and "state (snd (step e a)) = Some p" and "p \<noteq> g"
    and "steps_taken (snd (step e a)) < step_limit e"
  shows "fst (step e a) = Inr (p, if \<bar>p - g\<bar> < \<bar>s - g\<bar> then - 0.1 else - 0.2, False)"
proof -
  have env: "snd (step e a) = e\<lparr>state := Some (move e a s), steps_taken := steps_taken e + 1\<rparr>"
    using assms(1,2) by (rule step_env)
  with assms(4) have p: "move e a s = p" by simp
  from env assms(6) have lim: "\<not> step_limit e \<le> steps_taken e + 1" by simp
  show ?thesis
    using step_result [OF assms(1,2,3)] p lim assms(5) by (simp add: shaped_cases)
qed

text \<open>
  One step closer (5 to 6, goal 8), and a move into the left wall (0 stays 0).
\<close>

theorem step_shaped_reward_witness:
  "fst (step (mid_episode 10 100 5 8 0) (IntV 1)) = Inr (6, - 0.1, False) \<and>
   fst (step (mid_episode 10 100 0 8 0) (IntV 0)) = Inr (0, - 0.2, False)"
proof -
  let ?e = "mid_episode 10 100 5 8 0" and ?w = "mid_episode 10 100 0 8 0"
  have a: "fst (step ?e (IntV 1)) = Inr (6, - 0.1, False)"
    using step_shaped_reward [of "IntV 1" ?e 5 8 6] by (simp add: eval_step)
  have b: "fst (step ?w (IntV 0)) = Inr (0, - 0.2, False)"
    using step_shaped_reward [of "IntV 0" ?w 0 8 0] by (simp add: eval_step)
  from a b show ?thesis by simp
qed

text \<open>
  C3. A valid step that ends on a position \<open>p\<close> other than the goal has a shaped penalty
  of \<open>-0.1\<close> or \<open>-0.2\<close>; when the counter has reached the step limit after the step, the
  reward is that penalty plus \<open>-100.0\<close> and \<open>done\<close> is \<open>True\<close>; when the counter is
  still below the limit, the reward is the penalty alone and \<open>done\<close> is \<open>False\<close>.
\<close>

theorem step_limit_penalty:
  assumes "valid_action a" and "state e = Some s" and "goal_state e = Some g"
    and "state (snd (step e a)) = Some p" and "p \<noteq> g"
  shows "shaped s p g \<in> {- 0.1, - 0.2} \<and>
         fst (step e a) =
           (if step_limit e \<le> steps_taken (snd (step e a))
            then Inr (p, shaped s p g + (- 100), True)
            else Inr (p, shaped s p g, False))"
proof -
  have env: "snd (step e a) = e\<lparr>state := Some (move e a s), steps_taken := steps_taken e + 1\<rparr>"
    using assms(1,2) by (rule step_env)
  with assms(4) have p: "move e a s = p" by simp
  have "fst (step e a) =
           (if step_limit e \<le> steps_taken (snd (step e a))
            then Inr (p, shaped s p g + (- 100), True)
            else Inr (p, shaped s p g, False))"
    using step_result [OF assms(1,2,3)] p assms(5) env by simp
  moreover have "shaped s p g \<in> {- 0.1, - 0.2}" by (simp add: shaped_cases)
  ultimately show ?thesis by simp
qed

text \<open>
  The hundredth step of an episode limited to 100 steps, and the ninety-ninth.
\<close>

theorem step_limit_penalty_witness:
  "fst (step (mid_episode 10 100 5 8 99) (IntV 1)) = Inr (6, - 100.1, True) \<and>
   fst (step (mid_episode 10 100 5 8 98) (IntV 0)) = Inr (4, - 0.2, False)"
proof -
  let ?e = "mid_episode 10 100 5 8 99" and ?w = "mid_episode 10 100 5 8 98"
  have a: "fst (step ?e (IntV 1)) = Inr (6, - 100.1, True)"
    using step_limit_penalty [of "IntV 1" ?e 5 8 6] by (simp add: eval_step)
  have b: "fst (step ?w (IntV 0)) = Inr (4, - 0.2, False)"
    using step_limit_penalty [of "IntV 0" ?w 5 8 4] by (simp add: eval_step)
  from a b show ?thesis by simp
qed

text \<open>
  C8. For every action other than \<open>0\<close> (left) and \<open>1\<close> (right), \<open>step\<close> fails: the
  \<open>assert\<close> raises \<open>AssertionError\<close> with the message that names the two valid actions.
  No such value is clamped or taken for a move.
\<close>

theorem step_rejects_invalid_action:
  assumes "a \<noteq> IntV 0" and "a \<noteq> IntV 1"
  shows "fst (step e a) = Inl (AssertionError ''Invalid action, must be 0 (left) or 1 (right).'')"
  using assms by (simp add: step_invalid valid_action_def)

theorem step_rejects_invalid_action_witness:
  "fst (step (mid_episode 10 100 5 8 0) (IntV 2)) =
     Inl (AssertionError ''Invalid action, must be 0 (left) or 1 (right).'') \<and>
   fst (step (mid_episode 10 100 5 8 0) NoneV) =
     Inl (AssertionError ''Invalid action, must be 0 (left) or 1 (right).'')"
  using step_rejects_invalid_action [of "IntV 2" "mid_episode 10 100 5 8 0"]
    step_rejects_invalid_action [of NoneV "mid_episode 10 100 5 8 0"]
  by simp

text \<open>
  C10. A call of \<open>step\<close> with an action other than \<open>0\<close> and \<open>1\<close> leaves the environment
  as it was: position, goal and step counter (and every other field) keep their values,
  since the \<open>assert\<close> comes before any assignment.
\<close>

theorem step_invalid_action_keeps_env:
  assumes "a \<noteq> IntV 0" and "a \<noteq> IntV 1"
  shows "snd (step e a) = e"
  using assms by (simp add: step_invalid valid_action_def)

theorem step_invalid_action_keeps_env_witness:
  "snd (step (mid_episode 10 100 5 8 0) (IntV (- 1))) = mid_episode 10 100 5 8 0"
  using step_invalid_action_keeps_env [of "IntV (- 1)" "mid_episode 10 100 5 8 0"]
  by simp

subsection \<open>Facts about \<open>reset\<close>\<close>

lemma randrange_Inr:
  "randrange r n = Inr (x, r') \<longleftrightarrow> 0 < n \<and> x = int (shd r) mod n \<and> r' = stl r"
  by (auto simp: randrange_def)

lemma randrange_Inl: "randrange r n = Inl err \<longleftrightarrow> n \<le> 0 \<and> err = ValueError"
  by (auto simp: randrange_def)

lemma reset_loop_inv:
  assumes "reset_loop e s = Some y"
  shows "N (snd y) = N e \<and> step_limit (snd y) = step_limit e \<and> goal_state (snd y) = goal_state e \<and>
         state (snd y) = state e \<and> steps_taken (snd y) = steps_taken e \<and>
         (case fst y of
            Inl err \<Rightarrow> N e \<le> 0
          | Inr s' \<Rightarrow> Some s' \<noteq> goal_state e \<and> (s' = s \<or> (0 \<le> s' \<and> s' < N e)))"
proof (induction e s y rule: reset_loop.raw_induct)
  case (1 f e start_state y)
  show ?case
  proof (cases "Some start_state = goal_state e")
    case False
    with 1(2) show ?thesis by auto
  next
    case True
    show ?thesis
    proof (cases "randrange (rng e) (N e)")
      case (Inl err)
      with True 1(2) show ?thesis by (auto simp: randrange_Inl)
    next
      case (Inr sr)
      obtain x r where sr: "sr = (x, r)" by (cases sr)
      from Inr sr have rr: "0 < N e" "x = int (shd (rng e)) mod N e"
        by (simp_all add: randrange_Inr)
      from True 1(2) Inr sr have "f (e\<lparr>rng := r\<rparr>) x = Some y" by simp
      from 1(1) [OF this] rr show ?thesis
        by (auto split: sum.splits)
    qed
  qed
qed (rule assms)

lemma reset_loop_post:
  assumes "reset_loop e s = Some (res, e')"
  shows "N e' = N e \<and> step_limit e' = step_limit e \<and> goal_state e' = goal_state e \<and>
         state e' = state e \<and> steps_taken e' = steps_taken e \<and>
         (case res of
            Inl err \<Rightarrow> N e \<le> 0
          | Inr s' \<Rightarrow> Some s' \<noteq> goal_state e \<and> (s' = s \<or> (0 \<le> s' \<and> s' < N e)))"
  using reset_loop_inv [OF assms] by simp

lemma reset_Inr:
  assumes "reset e = Some (Inr s, e')"
  shows "0 < N e \<and> N e' = N e \<and> step_limit e' = step_limit e \<and>
         goal_state e' = Some (int (shd (rng e)) mod N e) \<and>
         state e' = Some s \<and> steps_taken e' = 0 \<and>
         s \<noteq> int (shd (rng e)) mod N e \<and> 0 \<le> s \<and> s < N e"
proof -
  from assms have pos: "0 < N e"
    by (auto simp: reset_def randrange_def split: if_splits)
  define g where "g = int (shd (rng e)) mod N e"
  define e1 where "e1 = e\<lparr>goal_state := Some g, rng := stl (stl (rng e))\<rparr>"
  define s0 where "s0 = int (shd (stl (rng e))) mod N e"
  from assms pos obtain e2 where
    loop: "reset_loop e1 s0 = Some (Inr s, e2)"
    and e': "e' = e2\<lparr>state := Some s, steps_taken := 0\<rparr>"
    by (auto simp: reset_def randrange_def Let_def g_def e1_def s0_def
             split: option.splits sum.splits)
  have s0: "0 \<le> s0 \<and> s0 < N e" using pos by (simp add: s0_def)
  from reset_loop_post [OF loop] s0 e' show ?thesis
    by (auto simp: e1_def g_def)
qed

lemma reset_loop_stuck:
  assumes "reset_loop e s = Some y"
  shows "\<not> (0 < N e \<and> goal_state e = Some s \<and> (\<forall>k. int (rng e !! k) mod N e = s))"
proof (induction e s y rule: reset_loop.raw_induct)
  case (1 f e start_state y)
  show ?case
  proof
    assume stuck: "0 < N e \<and> goal_state e = Some start_state \<and>
                   (\<forall>k. int (rng e !! k) mod N e = start_state)"
    then have "int (rng e !! 0) mod N e = start_state" by blast
    then have draw: "randrange (rng e) (N e) = Inr (start_state, stl (rng e))"
      using stuck by (simp add: randrange_def)
    with stuck 1(2) have call: "f (e\<lparr>rng := stl (rng e)\<rparr>) start_state = Some y" by simp
    have "\<forall>k. int (stl (rng e) !! k) mod N e = start_state"
    proof
      fix k
      from stuck have "int (rng e !! Suc k) mod N e = start_state" by blast
      then show "int (stl (rng e) !! k) mod N e = start_state" by simp
    qed
    with stuck 1(1) [OF call] show False by simp
  qed
qed (rule assms)

lemma reset_loop_never_returns:
  assumes "0 < N e" and "goal_state e = Some s" and "\<forall>k. int (rng e !! k) mod N e = s"
  shows "reset_loop e s = None"
proof (cases "reset_loop e s")
  case None
  then show ?thesis .
next
  case (Some y)
  from reset_loop_stuck [OF Some] assms show ?thesis by simp
qed

lemma reset_loop_returns:
  assumes "0 < N e" and "goal_state e = Some g" and "int (rng e !! k) mod N e \<noteq> g"
  shows "\<exists>s' e'. reset_loop e s = Some (Inr s', e')"
  using assms
proof (induction k arbitrary: e s)
  case 0
  show ?case
  proof (cases "s = g")
    case False
    with 0 show ?thesis by (simp add: reset_loop.simps)
  next
    case True
    let ?x = "int (shd (rng e)) mod N e"
    from 0 have "?x \<noteq> g" by simp
    then have "reset_loop (e\<lparr>rng := stl (rng e)\<rparr>) ?x = Some (Inr ?x, e\<lparr>rng := stl (rng e)\<rparr>)"
      using 0 by (simp add: reset_loop.simps)
    with True 0 show ?thesis
      by (subst reset_loop.simps) (simp add: randrange_def)
  qed
next
  case (Suc k)
  show ?case
  proof (cases "s = g")
    case False
    with Suc.prems show ?thesis by (simp add: reset_loop.simps)
  next
    case True
    let ?x = "int (shd (rng e)) mod N e" and ?e = "e\<lparr>rng := stl (rng e)\<rparr>"
    from Suc.prems have "0 < N ?e" "goal_state ?e = Some g" "int (rng ?e !! k) mod N ?e \<noteq> g"
      by simp_all
    from Suc.IH [OF this] obtain s' e' where "reset_loop ?e ?x = Some (Inr s', e')" by blast
    with True Suc.prems show ?thesis
      by (subst reset_loop.simps) (simp add: randrange_def)
  qed
qed

lemma reset_returns:
  assumes "0 < N e" and "int (stl (rng e) !! k) mod N e \<noteq> int (shd (rng e)) mod N e"
  shows "\<exists>s e'. reset e = Some (Inr s, e')"
proof -
  let ?g = "int (shd (rng e)) mod N e" and ?s0 = "int (shd (stl (rng e))) mod N e"
  let ?e1 = "e\<lparr>goal_state := Some ?g, rng := stl (stl (rng e))\<rparr>"
  have "\<exists>s' e'. reset_loop ?e1 ?s0 = Some (Inr s', e')"
  proof (cases k)
    case 0
    with assms have "?s0 \<noteq> ?g" by simp
    then show ?thesis by (simp add: reset_loop.simps)
  next
    case (Suc j)
    with assms have "0 < N ?e1" "goal_state ?e1 = Some ?g" "int (rng ?e1 !! j) mod N ?e1 \<noteq> ?g"
      by simp_all
    then show ?thesis by (rule reset_loop_returns)
  qed
  then obtain s' e' where "reset_loop ?e1 ?s0 = Some (Inr s', e')" by blast
  with assms(1) show ?thesis
    by (simp add: reset_def randrange_def Let_def)
qed

lemma reset_size_one:
  assumes "N e = 1"
  shows "reset e = None"
proof -
  let ?e1 = "e\<lparr>goal_state := Some 0, rng := stl (stl (rng e))\<rparr>"
  have "reset_loop ?e1 0 = None"
    using assms by (intro reset_loop_never_returns) simp_all
  with assms show ?thesis
    by (simp add: reset_def randrange_def Let_def)
qed

lemma reset_empty_range: "N e \<le> 0 \<Longrightarrow> reset e = Some (Inl ValueError, e)"
  by (simp add: reset_def randrange_def)

lemmas eval_reset = reset_def randrange_def reset_loop.simps fresh_def Let_def

text \<open>
  A run of \<open>reset\<close> on a generator that draws 8, 8, 5: the goal is 8, the first start is
  the goal again and is drawn anew.
\<close>

lemma reset_fresh_example:
  "reset (fresh 10 100 [8, 8, 5, 3]) =
     Some (Inr 5, \<lparr>N = 10, step_limit = 100, rng = cycle [3, 8, 8, 5],
                   state = Some 5, goal_state = Some 8, steps_taken = 0\<rparr>)"
  by (simp add: eval_reset)

text \<open>
  C7. Whenever \<open>reset\<close> returns a state, the goal stored in the environment is the one
  drawn first in this call, the returned state is the stored position and differs from
  that goal, and the step counter is 0. (A return already implies a size of at least 2;
  \<open>reset_returns\<close> above says when the call does return.)
\<close>

theorem reset_start_differs_from_goal:
  assumes "reset e = Some (Inr s, e')"
  shows "goal_state e' = Some (int (shd (rng e)) mod N e) \<and> state e' = Some s \<and>
         Some s \<noteq> goal_state e' \<and> steps_taken e' = 0"
  using reset_Inr [OF assms] by simp

theorem reset_start_differs_from_goal_witness:
  "\<exists>e'. reset (fresh 10 100 [8, 8, 5, 3]) = Some (Inr 5, e') \<and>
        goal_state e' = Some 8 \<and> state e' = Some 5 \<and> steps_taken e' = 0"
  using reset_start_differs_from_goal [OF reset_fresh_example]
  by (simp add: reset_fresh_example)

subsection \<open>Positions stay on the grid\<close>

lemma step_keeps_grid:
  assumes "in_grid e"
  shows "in_grid (snd (step e a)) \<and> N (snd (step e a)) = N e"
proof (cases "valid_action a")
  case False
  with assms show ?thesis by (simp add: step_invalid)
next
  case True
  from assms obtain p g where pg: "state e = Some p" "goal_state e = Some g"
    and rng: "0 \<le> p" "p < N e" "0 \<le> g" "g < N e"
    by (auto simp: in_grid_def split: option.splits)
  have env: "snd (step e a) = e\<lparr>state := Some (move e a p), steps_taken := steps_taken e + 1\<rparr>"
    using True pg(1) by (rule step_env)
  have "0 \<le> move e a p \<and> move e a p < N e"
    using rng by (auto simp: move_def)
  with env pg rng show ?thesis by (simp add: in_grid_def)
qed

lemma steps_keep_grid: "in_grid e \<Longrightarrow> in_grid (steps e as) \<and> N (steps e as) = N e"
proof (induction as arbitrary: e)
  case Nil
  then show ?case by simp
next
  case (Cons a as)
  from step_keeps_grid [OF Cons.prems, of a]
  have "in_grid (snd (step e a))" and n: "N (snd (step e a)) = N e" by simp_all
  from Cons.IH [OF this(1)] n show ?case by simp
qed

lemma reset_in_grid:
  assumes "reset e = Some (Inr s, e1)"
  shows "in_grid e1 \<and> N e1 = N e"
proof -
  from reset_Inr [OF assms] show ?thesis
    by (simp add: in_grid_def)
qed

text \<open>
  C6. After a \<open>reset\<close> that returned a state, and then any sequence of \<open>step\<close> calls
  (with valid actions or not: an invalid one changes nothing), position and goal are set
  and lie in \<open>[0, N)\<close>, and \<open>N\<close> is the size the environment was built with, which is at
  least 2.
\<close>

theorem positions_stay_in_grid:
  assumes "reset e = Some (Inr s, e1)"
  shows "in_grid (steps e1 as) \<and> N (steps e1 as) = N e \<and> 2 \<le> N e"
proof -
  from reset_in_grid [OF assms] have g: "in_grid e1" and n: "N e1 = N e" by simp_all
  from reset_Inr [OF assms] have pos: "0 < N e" by simp
  have "N e \<noteq> 1"
  proof
    assume "N e = 1"
    then have "reset e = None" by (rule reset_size_one)
    with assms show False by simp
  qed
  with pos have "2 \<le> N e" by simp
  with steps_keep_grid [OF g, of as] n show ?thesis by simp
qed

theorem positions_stay_in_grid_witness:
  "reset (fresh 10 100 [8, 8, 5, 3]) =
     Some (Inr 5, \<lparr>N = 10, step_limit = 100, rng = cycle [3, 8, 8, 5],
                   state = Some 5, goal_state = Some 8, steps_taken = 0\<rparr>) \<and>
   in_grid (steps \<lparr>N = 10, step_limit = 100, rng = cycle [3, 8, 8, 5],
                   state = Some 5, goal_state = Some 8, steps_taken = 0\<rparr>
              [IntV 0, IntV 0, IntV 0, IntV 0, IntV 0, IntV 0, IntV 1])"
  using positions_stay_in_grid [OF reset_fresh_example,
          of "[IntV 0, IntV 0, IntV 0, IntV 0, IntV 0, IntV 0, IntV 1]"]
  by (simp add: reset_fresh_example)

subsection \<open>Construction\<close>

text \<open>
  C5, as stated, fails: \<open>__init__\<close> checks nothing, and building an environment of size 1
  returns an environment.
\<close>

theorem init_size_one_counterexample:
  "GridWorld1D_init 1 100 (cycle [0]) = Inr (fresh 1 100 [0])"
  by (simp add: GridWorld1D_init_def fresh_def)

text \<open>
  C5, amended. Construction never fails, whatever the size: it returns an environment with
  the given size, limit and generator, both positions unset and the counter at 0. A size
  below 2 shows only at the first \<open>reset\<close>: with a size of 0 or less \<open>randrange\<close> raises
  \<open>ValueError\<close> and the environment is unchanged, and with size 1 \<open>reset\<close> never returns.
\<close>

theorem init_never_fails:
  "\<exists>e. GridWorld1D_init n sl r = Inr e \<and> N e = n \<and> step_limit e = sl \<and> rng e = r \<and>
        state e = None \<and> goal_state e = None \<and> steps_taken e = 0 \<and>
        (n \<le> 0 \<longrightarrow> reset e = Some (Inl ValueError, e)) \<and>
        (n = 1 \<longrightarrow> reset e = None)"
  by (simp add: GridWorld1D_init_def reset_size_one reset_empty_range)

theorem init_never_fails_witness:
  "GridWorld1D_init 0 100 (cycle [0]) = Inr (fresh 0 100 [0]) \<and>
   reset (fresh 0 100 [0]) = Some (Inl ValueError, fresh 0 100 [0]) \<and>
   GridWorld1D_init 1 100 (cycle [0]) = Inr (fresh 1 100 [0]) \<and>
   reset (fresh 1 100 [0]) = None"
proof -
  from init_never_fails [of 0 100 "cycle [0]"]
  have a: "reset (fresh 0 100 [0]) = Some (Inl ValueError, fresh 0 100 [0])"
    by (simp add: GridWorld1D_init_def fresh_def)
  from init_never_fails [of 1 100 "cycle [0]"]
  have b: "reset (fresh 1 100 [0]) = None"
    by (simp add: GridWorld1D_init_def fresh_def)
  from a b show ?thesis by (simp add: GridWorld1D_init_def fresh_def)
qed

subsection \<open>The wildcard policy against its description\<close>

lemma clamp_max_min: "1 \<le> n \<Longrightarrow> max 0 (min (n - 1) t) = clamp t 0 (n - 1)"
  by (auto simp: clamp_def)

lemma sweep_of_Some:
  "sweep_of gl = Some w \<longleftrightarrow>
     wildcard_origin gl = Some (origin w) \<and> wildcard_extent gl = Some (extent w) \<and>
     wildcard_direction gl = Some (direction w)"
  by (cases w) (auto simp: sweep_of_def split: option.splits)

lemma wildcard_later_step:
  assumes "steps_taken env \<noteq> 0" and "1 \<le> N env" and "sweep_of gl = Some w"
  shows "\<exists>gl'. wildcard_policy st env gl =
             (Inr (action_val (fst (wildcard_sweep (N env) (steps_taken env) st w))), env, gl') \<and>
           sweep_of gl' = Some (snd (wildcard_sweep (N env) (steps_taken env) st w)) \<and>
           monotonous_direction gl' = monotonous_direction gl \<and>
           module_random gl' = module_random gl"
proof -
  from assms(3) have g: "wildcard_origin gl = Some (origin w)"
    "wildcard_extent gl = Some (extent w)" "wildcard_direction gl = Some (direction w)"
    by (simp_all add: sweep_of_Some)
  let ?t = "clamp (origin w + direction w * extent w) 0 (N env - 1)"
  have t: "max 0 (min (N env - 1) (origin w + direction w * extent w)) = ?t"
    using assms(2) by (rule clamp_max_min)
  show ?thesis
    using assms(1) g t
    by (simp add: wildcard_policy_def wildcard_sweep_def Let_def sweep_of_Some action_val_def)
qed

text \<open>
  C9. On a grid of size at least 1, \<open>wildcard_policy\<close> is the expanding sweep of the
  description: at step counter 0 it returns right and stores \<open>origin = state\<close>,
  \<open>extent = 1\<close>, \<open>direction = +1\<close>; on a later step, with the three variables assigned,
  it returns the action of \<open>wildcard_sweep\<close> and leaves in the module variables the
  policy state of \<open>wildcard_sweep\<close>. The environment and the other module variables are
  untouched.
\<close>

theorem wildcard_policy_refines_sweep:
  assumes "1 \<le> N env" and "steps_taken env = 0 \<or> sweep_of gl = Some w"
  shows "\<exists>gl'. wildcard_policy st env gl =
             (Inr (action_val (fst (wildcard_sweep (N env) (steps_taken env) st w))), env, gl') \<and>
           sweep_of gl' = Some (snd (wildcard_sweep (N env) (steps_taken env) st w)) \<and>
           monotonous_direction gl' = monotonous_direction gl \<and>
           module_random gl' = module_random gl"
proof (cases "steps_taken env = 0")
  case True
  then show ?thesis
    by (simp add: wildcard_policy_def wildcard_sweep_def action_val_def sweep_of_Some)
next
  case False
  with assms(2) have "sweep_of gl = Some w" by simp
  with False assms(1) show ?thesis by (rule wildcard_later_step)
qed

text \<open>
  The example of the description: size 10, origin 4. The first call returns right with
  extent 1 and direction \<open>+1\<close>; on arrival at the target 5 the direction flips to \<open>-1\<close>
  with the extent still 1, and the action is left.
\<close>

theorem wildcard_policy_refines_sweep_witness:
  "wildcard_policy 5 (mid_episode 10 100 5 8 1) (sweeping 4 1 1 (sconst 0)) =
     (Inr (IntV 0), mid_episode 10 100 5 8 1, sweeping 4 1 (- 1) (sconst 0)) \<and>
   wildcard_sweep 10 1 5 \<lparr>origin = 4, extent = 1, direction = 1\<rparr> =
     (Left, \<lparr>origin = 4, extent = 1, direction = - 1\<rparr>) \<and>
   wildcard_policy 4 (mid_episode 10 100 4 8 0) (at_import (sconst 0)) =
     (Inr (IntV 1), mid_episode 10 100 4 8 0, sweeping 4 1 1 (sconst 0))"
proof -
  let ?e = "mid_episode 10 100 5 8 1" and ?gl = "sweeping 4 1 1 (sconst 0)"
  let ?w = "\<lparr>origin = 4, extent = 1, direction = 1\<rparr>"
  have h1: "1 \<le> N ?e" by (simp add: mid_episode_def)
  have h2: "steps_taken ?e = 0 \<or> sweep_of ?gl = Some ?w"
    by (simp add: sweep_of_def sweeping_def)
  have sw: "wildcard_sweep 10 1 5 ?w = (Left, \<lparr>origin = 4, extent = 1, direction = - 1\<rparr>)"
    by (simp add: wildcard_sweep_def clamp_def Let_def)
  have n: "N ?e = 10" "steps_taken ?e = 1" by (simp_all add: mid_episode_def)
  from wildcard_policy_refines_sweep [OF h1 h2, of 5]
  obtain gl' where "wildcard_policy 5 ?e ?gl = (Inr (action_val Left), ?e, gl')"
    by (auto simp: n sw)
  then have a: "fst (wildcard_policy 5 ?e ?gl) = Inr (IntV 0)" by (simp add: action_val_def)
  have b: "snd (wildcard_policy 5 ?e ?gl) = (?e, sweeping 4 1 (- 1) (sconst 0))"
    by (simp add: wildcard_policy_def sweeping_def mid_episode_def Let_def)
  have c: "wildcard_policy 4 (mid_episode 10 100 4 8 0) (at_import (sconst 0)) =
     (Inr (IntV 1), mid_episode 10 100 4 8 0, sweeping 4 1 1 (sconst 0))"
    by (simp add: wildcard_policy_def sweeping_def at_import_def mid_episode_def)
  from a b have "wildcard_policy 5 ?e ?gl = (Inr (IntV 0), ?e, sweeping 4 1 (- 1) (sconst 0))"
    by (simp add: prod_eq_iff)
  with sw c show ?thesis by simp
qed

subsection \<open>Which generator an episode draws from\<close>

text \<open>
  A policy that neither reads nor assigns module-level variables makes the whole loop
  independent of them; \<open>random_policy\<close> is one, so its episodes depend on \<open>env.rng\<close>
  alone.
\<close>

lemma random_policy_draw:
  "random_policy st env gl =
     (Inr (IntV (int (shd (rng env)) mod 2)), env\<lparr>rng := stl (rng env)\<rparr>, gl)"
  by (simp add: random_policy_def randrange_def)

lemma run_loop_ignores_globals:
  assumes pol: "\<And>st env. \<exists>a env'. \<forall>gl. p st env gl = (a, env', gl)"
  shows "\<exists>res env'. \<forall>gl. run_loop p m k t st tot env gl = (res, env', gl)"
proof (induction k arbitrary: t st tot env)
  case 0
  show ?case by simp
next
  case (Suc k)
  from pol [of st env] obtain a env1 where p: "\<forall>gl. p st env gl = (a, env1, gl)" by blast
  show ?case
  proof (cases a)
    case (Inl err)
    with p show ?thesis by simp
  next
    case act: (Inr action)
    obtain x env2 where st: "step env1 action = (x, env2)" by (cases "step env1 action")
    show ?thesis
    proof (cases x)
      case (Inl err)
      with p act st show ?thesis by simp
    next
      case (Inr y)
      obtain ns reward d where y: "y = (ns, reward, d)" by (cases y)
      show ?thesis
      proof (cases d)
        case True
        with p act st Inr y show ?thesis by simp
      next
        case False
        from Suc.IH [of "t + 1" ns "tot + reward" env2]
        obtain res env' where
          "\<forall>gl. run_loop p m k (t + 1) ns (tot + reward) env2 gl = (res, env', gl)"
          by blast
        with p act st Inr y False show ?thesis by simp
      qed
    qed
  qed
qed

lemma run_loop_random_policy:
  "\<exists>res env'. \<forall>gl. run_loop random_policy m k t st tot env gl = (res, env', gl)"
  by (rule run_loop_ignores_globals) (simp add: random_policy_draw)

lemma run_episode_random_policy_seeded:
  "map_option (\<lambda>(res, env', gl'). (res, env'))
       (run_episode env random_policy m (gl\<lparr>module_random := r\<rparr>)) =
   map_option (\<lambda>(res, env', gl'). (res, env'))
       (run_episode env random_policy m (gl\<lparr>module_random := r'\<rparr>))"
proof (cases "reset env")
  case None
  then show ?thesis by (simp add: run_episode_def)
next
  case (Some y)
  obtain x env1 where y: "y = (x, env1)" by (cases y)
  show ?thesis
  proof (cases x)
    case (Inl err)
    with Some y show ?thesis by (simp add: run_episode_def)
  next
    case (Inr st)
    from run_loop_random_policy [of m "nat m" 0 st 0 env1]
    obtain res env' where
      "\<forall>gl. run_loop random_policy m (nat m) 0 st 0 env1 gl = (res, env', gl)" by blast
    with Some y Inr show ?thesis by (simp add: run_episode_def randrange_def)
  qed
qed

lemmas eval_run = run_episode_def reset_def randrange_def reset_loop.simps numeral_eq_Suc
  monotonous_policy_def step_def valid_action_def move_def shaped_def at_import_def
  fresh_def Let_def

text \<open>
  C4 does not hold of \<open>run_episode\<close>: the initial direction of the monotonous policy is
  drawn from the generator of the \<open>random\<close> module, which the seed of the environment does
  not reach. Two runs on the same environment (size 10, limit 100, the same generator,
  which draws goal 8 and start 5) differ as soon as the module generator differs: with
  first draw 1 the episode takes 3 steps and returns 9.8, with first draw 0 it takes 13
  steps and returns 8.3.
\<close>

theorem run_episode_draws_from_module_random:
  "map_option fst (run_episode (fresh 10 100 [8, 5]) monotonous_policy 100 (at_import (sconst 1)))
     = Some (Inr (9.8, 3)) \<and>
   map_option fst (run_episode (fresh 10 100 [8, 5]) monotonous_policy 100 (at_import (sconst 0)))
     = Some (Inr (8.3, 13))"
  by (simp add: eval_run)

end
